theory Spec2Isabelle
  imports Main
begin

section \<open>The book scraper \<^verbatim>\<open>extract_raw_book_data.py\<close>\<close>

text \<open>
  The script pages through a book listing, parses every listing page into rows
  (author, title, website), then visits every book's detail page and stores the
  description, the genre and the download links in the row.

  The model is a shallow embedding. The parsed markup (what \<^verbatim>\<open>BeautifulSoup\<close>
  returns) is a tree of nodes, the table (the \<^verbatim>\<open>DataFrame\<close>) is a list of records,
  an exception is a value of the type \<open>exn\<close>, and the network is a function that gives
  the reply to the \<open>n\<close>-th request of the run. The state threaded through the code is the
  log of the URLs requested so far.
\<close>

subsection \<open>Exceptions\<close>

text \<open>
  \<open>Timeout\<close> stands for \<^verbatim>\<open>requests.exceptions.Timeout\<close> and its subclasses,
  \<open>RequestError\<close> for every other \<^verbatim>\<open>RequestException\<close>. The remaining ones are
  Python's builtin exceptions the script can meet.
\<close>

datatype exn =
  Timeout | RequestError | AttributeError | TypeError | ValueError | IndexError | KeyError

fun is_RequestException :: "exn \<Rightarrow> bool" where
  "is_RequestException Timeout = True"
| "is_RequestException RequestError = True"
| "is_RequestException _ = False"

subsection \<open>Strings\<close>

text \<open>
  A string is a list of 8-bit characters. The builtins \<^verbatim>\<open>str.lower\<close>,
  \<^verbatim>\<open>str.strip\<close> and the operator \<^verbatim>\<open>in\<close> are modelled on ASCII: a character
  outside ASCII is left alone by \<open>lower\<close> and is no white space for \<open>strip\<close>.
  No character outside ASCII lower-cases to a letter of \<^verbatim>\<open>epub\<close> or \<^verbatim>\<open>pdf\<close>,
  so the two substring tests of the script are not affected.
\<close>

definition lower_char :: "char \<Rightarrow> char" where
  "lower_char c =
     (case map_of (zip ''ABCDEFGHIJKLMNOPQRSTUVWXYZ'' ''abcdefghijklmnopqrstuvwxyz'') c of
        None \<Rightarrow> c
      | Some d \<Rightarrow> d)"

definition lower :: "string \<Rightarrow> string" where
  "lower s = map lower_char s"

definition is_space :: "char \<Rightarrow> bool" where
  "is_space c = (let n = (of_char c :: nat) in (9 \<le> n \<and> n \<le> 13) \<or> (28 \<le> n \<and> n \<le> 32))"

definition strip :: "string \<Rightarrow> string" where
  "strip s = rev (dropWhile is_space (rev (dropWhile is_space s)))"

fun starts_with :: "string \<Rightarrow> string \<Rightarrow> bool" where
  "starts_with [] s = True"
| "starts_with (p # ps) [] = False"
| "starts_with (p # ps) (c # cs) = (p = c \<and> starts_with ps cs)"

text \<open>\<open>contains sub s\<close> is Python's \<^verbatim>\<open>sub in s\<close> on strings.\<close>

fun contains :: "string \<Rightarrow> string \<Rightarrow> bool" where
  "contains sub [] = (sub = [])"
| "contains sub (c # cs) = (starts_with sub (c # cs) \<or> contains sub cs)"

text \<open>\<open>words_of s\<close> is \<^verbatim>\<open>s.split()\<close>: the maximal runs of characters that are no white space.\<close>

fun split_ws :: "string \<Rightarrow> string \<Rightarrow> string list" where
  "split_ws cur [] = (if cur = [] then [] else [cur])"
| "split_ws cur (c # cs) =
     (if is_space c then (if cur = [] then split_ws [] cs else cur # split_ws [] cs)
      else split_ws (cur @ [c]) cs)"

definition words_of :: "string \<Rightarrow> string list" where
  "words_of s = split_ws [] s"

text \<open>\<open>join sep xs\<close> is \<^verbatim>\<open>sep.join(xs)\<close>.\<close>

fun join :: "string \<Rightarrow> string list \<Rightarrow> string" where
  "join sep [] = []"
| "join sep [x] = x"
| "join sep (x # y # ys) = x @ sep @ join sep (y # ys)"

subsection \<open>Parsed markup\<close>

text \<open>
  A node of the parse tree is a piece of text or a tag with its attributes and its
  children. The attributes are the tag's dictionary, as a list of pairs looked up by
  name. A parsed page (the \<^verbatim>\<open>BeautifulSoup\<close> object) is the root tag.
\<close>

datatype node = Text string | Tag string "(string \<times> string) list" "node list"

text \<open>All the nodes below a node, in document order.\<close>

fun descendants :: "node \<Rightarrow> node list" where
  "descendants (Text s) = []"
| "descendants (Tag n as cs) = concat (map (\<lambda>c. c # descendants c) cs)"

text \<open>\<^verbatim>\<open>tag.get(key)\<close>: the attribute, or \<^verbatim>\<open>None\<close>.\<close>

fun get :: "node \<Rightarrow> string \<Rightarrow> string option" where
  "get (Text s) k = None"
| "get (Tag n as cs) k = map_of as k"

text \<open>\<^verbatim>\<open>tag.text\<close>: the texts below the tag, concatenated.\<close>

fun text_of :: "node \<Rightarrow> string" where
  "text_of (Text s) = s"
| "text_of (Tag n as cs) = concat (map text_of cs)"

text \<open>
  An attribute filter \<^verbatim>\<open>{key: value}\<close> of \<^verbatim>\<open>find_all\<close>. The attribute
  \<^verbatim>\<open>class\<close> holds a list of classes separated by white space and matches when the
  value is one of them; any other attribute matches when it equals the value. (The
  script only filters on values without white space.)
\<close>

definition attr_matches :: "(string \<times> string) list \<Rightarrow> string \<times> string \<Rightarrow> bool" where
  "attr_matches as kv =
     (case map_of as (fst kv) of
        None \<Rightarrow> False
      | Some s \<Rightarrow> if fst kv = ''class'' then snd kv \<in> set (words_of s) else s = snd kv)"

fun matches :: "string \<Rightarrow> (string \<times> string) list \<Rightarrow> node \<Rightarrow> bool" where
  "matches name want (Text s) = False"
| "matches name want (Tag n as cs) = (n = name \<and> list_all (attr_matches as) want)"

definition find_all :: "node \<Rightarrow> string \<Rightarrow> (string \<times> string) list \<Rightarrow> node list" where
  "find_all soup name want = filter (matches name want) (descendants soup)"

text \<open>\<^verbatim>\<open>find\<close> is the first result of \<^verbatim>\<open>find_all\<close>, or \<^verbatim>\<open>None\<close>.\<close>

definition find_first :: "node \<Rightarrow> string \<Rightarrow> (string \<times> string) list \<Rightarrow> node option" where
  "find_first soup name want =
     (case find_all soup name want of [] \<Rightarrow> None | x # _ \<Rightarrow> Some x)"

subsection \<open>Numbers as text\<close>

text \<open>
  \<open>str_int\<close> is the decimal text of an integer, as an f-string prints it.
  \<open>py_int\<close> is \<^verbatim>\<open>int(s)\<close> on ASCII text: white space around the number is dropped,
  a sign may come first, and single underscores may stand between digits; anything else
  raises \<^verbatim>\<open>ValueError\<close>.
\<close>

definition digit_char :: "nat \<Rightarrow> char" where
  "digit_char d = ''0123456789'' ! d"

definition is_digit :: "char \<Rightarrow> bool" where
  "is_digit c = (let n = (of_char c :: nat) in 48 \<le> n \<and> n \<le> 57)"

definition digit_val :: "char \<Rightarrow> nat" where
  "digit_val c = of_char c - 48"

function digits :: "nat \<Rightarrow> string" where
  "digits n = (if n < 10 then [digit_char n] else digits (n div 10) @ [digit_char (n mod 10)])"
  by pat_completeness auto
termination
  by (relation "measure (\<lambda>n. n)") auto

definition str_int :: "int \<Rightarrow> string" where
  "str_int i = (if i < 0 then CHR ''-'' # digits (nat (- i)) else digits (nat i))"

fun int_digits :: "nat \<Rightarrow> string \<Rightarrow> nat option" where
  "int_digits acc [] = Some acc"
| "int_digits acc [c] = (if is_digit c then Some (10 * acc + digit_val c) else None)"
| "int_digits acc (c # d # cs) =
     (if is_digit c then
        (if d = CHR ''_'' then
           (if cs = [] then None else int_digits (10 * acc + digit_val c) cs)
         else int_digits (10 * acc + digit_val c) (d # cs))
      else None)"

definition unsigned_int :: "string \<Rightarrow> exn + int" where
  "unsigned_int s =
     (if s = [] then Inl ValueError
      else (case int_digits 0 s of None \<Rightarrow> Inl ValueError | Some n \<Rightarrow> Inr (int n)))"

definition py_int :: "string \<Rightarrow> exn + int" where
  "py_int s =
     (case strip s of
        [] \<Rightarrow> Inl ValueError
      | c # cs \<Rightarrow>
          if c = CHR ''-'' then
            (case unsigned_int cs of Inl e \<Rightarrow> Inl e | Inr n \<Rightarrow> Inr (- n))
          else if c = CHR ''+'' then unsigned_int cs
          else unsigned_int (c # cs))"

text \<open>\<^verbatim>\<open>s.replace(".", "")\<close>.\<close>

definition remove_dots :: "string \<Rightarrow> string" where
  "remove_dots s = filter (\<lambda>c. c \<noteq> CHR ''.'') s"

subsection \<open>The table\<close>

text \<open>
  A row of the table. \<open>None\<close> is the null of the table (\<^verbatim>\<open>np.nan\<close>, or
  \<^verbatim>\<open>None\<close> for a title link without a title attribute). The listing creates a
  row with its first three columns; the other four columns are created, null, by the
  main program before the enrichment. A row of the listing table is a row whose four
  later columns are null.
\<close>

record book =
  author :: "string option"
  title :: "string option"
  website :: string
  genre :: "string option"
  description :: "string option"
  epub :: "string option"
  pdf :: "string option"

definition site :: string where
  "site = ''https://www.lectulandia.co''"

text \<open>
  \<^verbatim>\<open>pd.DataFrame(data)\<close> for the dictionary of the three columns: the lists are
  zipped by position, and lists of different lengths raise \<^verbatim>\<open>ValueError\<close>.
\<close>

definition DataFrame ::
  "string option list \<Rightarrow> string option list \<Rightarrow> string list \<Rightarrow> exn + book list" where
  "DataFrame authors titles websites =
     (if length authors = length titles \<and> length titles = length websites then
        Inr (map (\<lambda>(a, t, w).
                   \<lparr>author = a, title = t, website = w, genre = None, description = None,
                    epub = None, pdf = None\<rparr>)
                 (zip authors (zip titles websites)))
      else Inl ValueError)"

subsection \<open>The network\<close>

text \<open>
  \<^verbatim>\<open>requests.get(url, timeout=50)\<close> followed by the parse of the content either
  raises or gives a parsed page. The network \<open>net n url\<close> is the reply to a request
  for \<open>url\<close> made after \<open>n\<close> earlier requests of the run. The log is the list of the
  URLs requested so far, oldest first.
\<close>

datatype reply = Raises exn | Response node

type_synonym network = "nat \<Rightarrow> string \<Rightarrow> reply"

subsection \<open>The listing parser\<close>

text \<open>
  \<^verbatim>\<open>get_author\<close>. \<^verbatim>\<open>line.a\<close> is the first link below the element; without one,
  \<^verbatim>\<open>line.a.get\<close> raises \<^verbatim>\<open>AttributeError\<close>, which the function catches. A link
  without \<^verbatim>\<open>href\<close> makes the test \<^verbatim>\<open>'autor' in None\<close>, which raises
  \<^verbatim>\<open>TypeError\<close>, which nothing catches.
\<close>

fun get_author_loop :: "node list \<Rightarrow> string option list \<Rightarrow> exn + string option list" where
  "get_author_loop [] authors = Inr authors"
| "get_author_loop (line # lines) authors =
     (case find_first line ''a'' [] of
        None \<Rightarrow> get_author_loop lines (authors @ [None])
      | Some a \<Rightarrow>
          (case get a ''href'' of
             None \<Rightarrow> Inl TypeError
           | Some h \<Rightarrow>
               if contains ''autor'' h then get_author_loop lines (authors @ [Some (text_of a)])
               else get_author_loop lines authors))"

definition get_author :: "node \<Rightarrow> exn + string option list" where
  "get_author soup_element =
     get_author_loop (find_all soup_element ''div'' [(''class'', ''subdetail'')]) []"

text \<open>
  \<^verbatim>\<open>get_title_and_website\<close>. The site concatenated with a missing \<^verbatim>\<open>href\<close>
  raises \<^verbatim>\<open>TypeError\<close>.
\<close>

fun title_loop ::
  "node list \<Rightarrow> string option list \<Rightarrow> string list \<Rightarrow> exn + (string option list \<times> string list)"
  where
  "title_loop [] titles websites = Inr (titles, websites)"
| "title_loop (line # lines) titles websites =
     (case get line ''href'' of
        None \<Rightarrow> Inl TypeError
      | Some h \<Rightarrow> title_loop lines (titles @ [get line ''title'']) (websites @ [site @ h]))"

definition get_title_and_website :: "node \<Rightarrow> exn + (string option list \<times> string list)" where
  "get_title_and_website soup_element =
     title_loop (find_all soup_element ''a'' [(''class'', ''title'')]) [] []"

text \<open>The rows of one listing page: the dictionary \<^verbatim>\<open>data\<close> and its table.\<close>

definition page_rows :: "node \<Rightarrow> exn + book list" where
  "page_rows soup_object =
     (case get_author soup_object of
        Inl e \<Rightarrow> Inl e
      | Inr authors \<Rightarrow>
          (case get_title_and_website soup_object of
             Inl e \<Rightarrow> Inl e
           | Inr (titles, websites) \<Rightarrow> DataFrame authors titles websites))"

subsection \<open>The pagination driver (\<^verbatim>\<open>scrape_books\<close>)\<close>

definition page_url :: "int \<Rightarrow> string" where
  "page_url page = ''https://www.lectulandia.co/book/page/'' @ str_int page @ ''/''"

text \<open>
  The \<^verbatim>\<open>while\<close> loop of \<^verbatim>\<open>scrape_books\<close>. It ends with the parsed page, or with
  \<open>None\<close> after the fifth timeout; an exception that is no timeout is not caught.
\<close>

function fetch_page ::
  "network \<Rightarrow> string \<Rightarrow> nat \<Rightarrow> string list \<Rightarrow> exn + (node option \<times> string list)" where
  "fetch_page net url attempts log =
     (if attempts < 5 then
        (case net (length log) url of
           Response soup_object \<Rightarrow> Inr (Some soup_object, log @ [url])
         | Raises e \<Rightarrow>
             if e = Timeout then fetch_page net url (attempts + 1) (log @ [url])
             else Inl e)
      else Inr (None, log))"
  by pat_completeness auto
termination
  by (relation "measure (\<lambda>(net, url, attempts, log). 5 - attempts)") auto

text \<open>The \<^verbatim>\<open>for\<close> loop of \<^verbatim>\<open>scrape_books\<close> over the page numbers still to visit.\<close>

fun scrape_pages ::
  "network \<Rightarrow> int list \<Rightarrow> book list \<Rightarrow> string list \<Rightarrow> exn + (book list \<times> string list)" where
  "scrape_pages net [] df log = Inr (df, log)"
| "scrape_pages net (page # pages) df log =
     (case fetch_page net (page_url page) 0 log of
        Inl e \<Rightarrow> Inl e
      | Inr (None, log') \<Rightarrow> scrape_pages net pages df log'
      | Inr (Some soup_object, log') \<Rightarrow>
          (case page_rows soup_object of
             Inl e \<Rightarrow> Inl e
           | Inr page_df \<Rightarrow> scrape_pages net pages (df @ page_df) log'))"

definition scrape_books ::
  "network \<Rightarrow> int \<Rightarrow> string list \<Rightarrow> exn + (book list \<times> string list)" where
  "scrape_books net pages log = scrape_pages net [1..pages] [] log"

subsection \<open>The detail parser and the enrichment driver\<close>

text \<open>
  A step of \<^verbatim>\<open>get_book_details\<close> gives the table as it has been written so far and
  the exception raised, if any: the row is written in place, field by field, and what
  has been written stays written when a later line raises.
\<close>

type_synonym step = "book list \<times> exn option"

text \<open>
  One round of the loop over \<^verbatim>\<open>download_links\<close>. Concatenating the site and a
  missing \<^verbatim>\<open>href\<close> raises \<^verbatim>\<open>TypeError\<close>.
\<close>

definition assign_link :: "node \<Rightarrow> nat \<Rightarrow> book list \<Rightarrow> step" where
  "assign_link link row df =
     (if contains ''epub'' (lower (text_of link)) then
        (case get link ''href'' of
           None \<Rightarrow> (df, Some TypeError)
         | Some h \<Rightarrow> (df[row := (df ! row)\<lparr>epub := Some (site @ h)\<rparr>], None))
      else if contains ''pdf'' (lower (text_of link)) then
        (case get link ''href'' of
           None \<Rightarrow> (df, Some TypeError)
         | Some h \<Rightarrow> (df[row := (df ! row)\<lparr>pdf := Some (site @ h)\<rparr>], None))
      else (df, None))"

fun assign_links :: "node list \<Rightarrow> nat \<Rightarrow> book list \<Rightarrow> step" where
  "assign_links [] row df = (df, None)"
| "assign_links (link # links) row df =
     (case assign_link link row df of
        (df', Some e) \<Rightarrow> (df', Some e)
      | (df', None) \<Rightarrow> assign_links links row df')"

text \<open>
  The lines of the \<^verbatim>\<open>try\<close> block after the request. \<^verbatim>\<open>find\<close> gives
  \<^verbatim>\<open>None\<close> for a missing container, and the attribute access on it raises
  \<^verbatim>\<open>AttributeError\<close>.
\<close>

definition parse_details :: "node \<Rightarrow> nat \<Rightarrow> book list \<Rightarrow> step" where
  "parse_details site_soup row df =
     (case find_first site_soup ''div'' [(''class'', ''realign''), (''id'', ''sinopsis'')] of
        None \<Rightarrow> (df, Some AttributeError)
      | Some d \<Rightarrow>
          let df1 = df[row := (df ! row)\<lparr>description := Some (strip (text_of d))\<rparr>] in
          (case find_first site_soup ''div'' [(''id'', ''genero'')] of
             None \<Rightarrow> (df1, Some AttributeError)
           | Some g \<Rightarrow>
               let genres = join '' / '' (map text_of (find_all g ''a'' []));
                   df2 = df1[row := (df1 ! row)\<lparr>genre := Some genres\<rparr>] in
               (case find_first site_soup ''div'' [(''id'', ''downloadContainer'')] of
                  None \<Rightarrow> (df2, Some AttributeError)
                | Some c \<Rightarrow> assign_links (find_all c ''a'' []) row df2)))"

text \<open>
  The whole \<^verbatim>\<open>try\<close> block. Reading the website of a row that the table does not
  have raises \<^verbatim>\<open>KeyError\<close>.
\<close>

definition attempt ::
  "network \<Rightarrow> nat \<Rightarrow> book list \<Rightarrow> string list \<Rightarrow> book list \<times> exn option \<times> string list" where
  "attempt net row df log =
     (if row < length df then
        (case net (length log) (website (df ! row)) of
           Raises e \<Rightarrow> (df, Some e, log @ [website (df ! row)])
         | Response site_soup \<Rightarrow>
             (case parse_details site_soup row df of
                (df', r) \<Rightarrow> (df', r, log @ [website (df ! row)])))
      else (df, Some KeyError, log))"

text \<open>
  The \<^verbatim>\<open>while\<close> loop of \<^verbatim>\<open>get_book_details\<close>. The result holds the table, the
  flag \<^verbatim>\<open>success\<close> and the log at the end of the loop. The two \<^verbatim>\<open>except\<close>
  clauses catch \<^verbatim>\<open>RequestException\<close> and \<^verbatim>\<open>AttributeError\<close>; any other exception
  leaves the function.
\<close>

function details_loop ::
  "network \<Rightarrow> nat \<Rightarrow> book list \<Rightarrow> nat \<Rightarrow> string list \<Rightarrow> exn + (book list \<times> bool \<times> string list)"
  where
  "details_loop net row df attempts log =
     (if attempts < 5 then
        (case attempt net row df log of
           (df', None, log') \<Rightarrow> Inr (df', True, log')
         | (df', Some e, log') \<Rightarrow>
             if is_RequestException e \<or> e = AttributeError
             then details_loop net row df' (attempts + 1) log'
             else Inl e)
      else Inr (df, False, log))"
  by pat_completeness auto
termination
  by (relation "measure (\<lambda>(net, row, df, attempts, log). 5 - attempts)") auto

definition get_book_details ::
  "network \<Rightarrow> nat \<Rightarrow> book list \<Rightarrow> string list \<Rightarrow> exn + (book list \<times> string list)" where
  "get_book_details net row df log =
     (case details_loop net row df 0 log of
        Inl e \<Rightarrow> Inl e
      | Inr (df', success, log') \<Rightarrow> Inr (df', log'))"

text \<open>\<^verbatim>\<open>enrich_book_data\<close>: every row of the table, in the order of the index.\<close>

fun enrich_rows ::
  "network \<Rightarrow> nat list \<Rightarrow> book list \<Rightarrow> string list \<Rightarrow> exn + (book list \<times> string list)" where
  "enrich_rows net [] df log = Inr (df, log)"
| "enrich_rows net (index # rest) df log =
     (case get_book_details net index df log of
        Inl e \<Rightarrow> Inl e
      | Inr (df', log') \<Rightarrow> enrich_rows net rest df' log')"

definition enrich_book_data ::
  "network \<Rightarrow> book list \<Rightarrow> string list \<Rightarrow> exn + (book list \<times> string list)" where
  "enrich_book_data net df log = enrich_rows net [0..<length df] df log"

subsection \<open>The main program\<close>

definition INITIAL_URL :: string where
  "INITIAL_URL = ''https://www.lectulandia.co/book/''"

text \<open>\<^verbatim>\<open>xs[-2]\<close>: the second-to-last element, or \<^verbatim>\<open>IndexError\<close>.\<close>

definition second_last :: "'a list \<Rightarrow> exn + 'a" where
  "second_last xs = (if 2 \<le> length xs then Inr (xs ! (length xs - 2)) else Inl IndexError)"

text \<open>The number of pages, read from the first listing page.\<close>

definition total_pages :: "node \<Rightarrow> exn + int" where
  "total_pages soup =
     (case second_last (find_all soup ''a'' [(''class'', ''page-numbers'')]) of
        Inl e \<Rightarrow> Inl e
      | Inr last_page_link \<Rightarrow> py_int (remove_dots (text_of last_page_link)))"

text \<open>The placeholders: the four new columns, null in every row.\<close>

definition add_placeholders :: "book list \<Rightarrow> book list" where
  "add_placeholders df =
     map (\<lambda>b. b\<lparr>genre := None, description := None, epub := None, pdf := None\<rparr>) df"

text \<open>
  What a run leaves behind: the table saved after the listing, the table saved after the
  enrichment, and the requests made. The bytes of the two files are not modelled.
\<close>

record run =
  initial_table :: "book list"
  final_table :: "book list"
  requests :: "string list"

definition main :: "network \<Rightarrow> exn + run" where
  "main net =
     (case net 0 INITIAL_URL of
        Raises e \<Rightarrow> Inl e
      | Response soup \<Rightarrow>
          (case total_pages soup of
             Inl e \<Rightarrow> Inl e
           | Inr n \<Rightarrow>
               (case scrape_books net n [INITIAL_URL] of
                  Inl e \<Rightarrow> Inl e
                | Inr (books_df, log) \<Rightarrow>
                    (case enrich_book_data net (add_placeholders books_df) log of
                       Inl e \<Rightarrow> Inl e
                     | Inr (final_df, log') \<Rightarrow>
                         Inr \<lparr>initial_table = books_df, final_table = final_df,
                              requests = log'\<rparr>))))"

subsection \<open>What one attribution element adds\<close>

text \<open>
  The entries that one round of the loop of \<^verbatim>\<open>get_author\<close> appends for an
  element, when the round does not raise: a null for an element without a link, the
  text of the link when its target holds the author marker, nothing otherwise.
\<close>

definition author_entry :: "node \<Rightarrow> string option list" where
  "author_entry line =
     (case find_first line ''a'' [] of
        None \<Rightarrow> [None]
      | Some a \<Rightarrow>
          (case get a ''href'' of
             None \<Rightarrow> []
           | Some h \<Rightarrow> if contains ''autor'' h then [Some (text_of a)] else []))"

subsection \<open>Pages and tables used as examples\<close>

definition download_page :: node where
  "download_page =
     Tag ''div'' [(''id'', ''downloadContainer'')]
       [Tag ''a'' [(''href'', ''/e.epub'')] [Text ''Descargar EPUB''],
        Tag ''a'' [(''href'', ''/p.pdf'')] [Text ''Descargar PDF''],
        Tag ''a'' [(''href'', ''/x'')] [Text ''Unrelated'']]"

definition one_book :: "book list" where
  "one_book =
     [\<lparr>author = Some ''Ana'', title = Some ''Uno'', website = ''https://www.lectulandia.co/book/uno/'',
       genre = None, description = None, epub = None, pdf = None\<rparr>]"

definition genre_listing :: node where
  "genre_listing =
     Tag ''[document]'' []
       [Tag ''div'' [(''class'', ''subdetail'')]
          [Tag ''a'' [(''href'', ''/genero/novela/'')] [Text ''Novela'']]]"

definition author_listing :: node where
  "author_listing =
     Tag ''[document]'' []
       [Tag ''div'' [(''class'', ''subdetail'')]
          [Tag ''a'' [(''href'', ''/autor/ana/'')] [Text ''Ana'']],
        Tag ''div'' [(''class'', ''subdetail'')] [Text ''Anonimo''],
        Tag ''div'' [(''class'', ''subdetail'')]
          [Tag ''a'' [(''href'', ''/genero/novela/'')] [Text ''Novela'']]]"

definition two_book_listing :: node where
  "two_book_listing =
     Tag ''[document]'' []
       [Tag ''article'' []
          [Tag ''a'' [(''class'', ''title''), (''title'', ''Uno''), (''href'', ''/book/uno/'')] [Text ''Uno''],
           Tag ''div'' [(''class'', ''subdetail'')]
             [Tag ''a'' [(''href'', ''/autor/ana/'')] [Text ''Ana'']]],
        Tag ''article'' []
          [Tag ''a'' [(''class'', ''title''), (''title'', ''Dos''), (''href'', ''/book/dos/'')] [Text ''Dos''],
           Tag ''div'' [(''class'', ''subdetail'')] [Text ''Anonimo'']]]"

definition listing_net :: network where
  "listing_net n url = Response two_book_listing"

definition slow_start_net :: network where
  "slow_start_net n url = (if n < 5 then Raises Timeout else Response two_book_listing)"

definition timeout_net :: network where
  "timeout_net n url = Raises Timeout"

definition no_genre_page :: node where
  "no_genre_page =
     Tag ''[document]'' []
       [Tag ''div'' [(''class'', ''realign''), (''id'', ''sinopsis'')] [Text '' Resumen '']]"

definition no_genre_net :: network where
  "no_genre_net n url = Response no_genre_page"

definition empty_page :: node where
  "empty_page = Tag ''[document]'' [] [Tag ''p'' [] [Text ''Mantenimiento'']]"

definition flaky_net :: network where
  "flaky_net n url = (if n = 0 then Raises RequestError else Response empty_page)"

definition pagination_page :: node where
  "pagination_page =
     Tag ''[document]'' []
       [Tag ''nav'' []
          [Tag ''span'' [(''class'', ''page-numbers current'')] [Text ''1''],
           Tag ''a'' [(''class'', ''page-numbers''), (''href'', ''/book/page/2/'')] [Text ''2''],
           Tag ''a'' [(''class'', ''next page-numbers''), (''href'', ''/book/page/2/'')]
             [Text ''Siguiente'']]]"




definition mixed_net :: network where
  "mixed_net n url = (if n = 0 then Raises Timeout else Raises RequestError)"

definition broken_site_net :: network where
  "broken_site_net n url = (if n = 0 then Response pagination_page else Raises RequestError)"

section \<open>Properties\<close>

subsection \<open>Helper facts\<close>

text \<open>
  The two retry loops are unfolded by hand, one round at a time.
\<close>

declare fetch_page.simps [simp del]

declare details_loop.simps [simp del]

declare digits.simps [simp del]

lemma map_field_update_same: "(map f df)[row := f (df ! row)] = map f df"
  by (cases "row < length df") (simp_all add: list_update_same_conv list_update_beyond)

lemma get_author_loop_entries:
  "get_author_loop lines acc = Inr authors \<Longrightarrow>
     authors = acc @ concat (map author_entry lines)"
proof (induction lines arbitrary: acc)
  case Nil
  then show ?case by simp
next
  case (Cons line lines)
  show ?case
  proof (cases "find_first line ''a'' []")
    case None
    with Cons.prems have "get_author_loop lines (acc @ [None]) = Inr authors" by simp
    from Cons.IH [OF this] None show ?thesis by (simp add: author_entry_def)
  next
    case (Some a)
    show ?thesis
    proof (cases "get a ''href''")
      case None
      with Some Cons.prems show ?thesis by simp
    next
      case (Some h)
      note href = Some
      show ?thesis
      proof (cases "contains ''autor'' h")
        case True
        with \<open>find_first line ''a'' [] = Some a\<close> href Cons.prems
        have "get_author_loop lines (acc @ [Some (text_of a)]) = Inr authors" by simp
        from Cons.IH [OF this] True href \<open>find_first line ''a'' [] = Some a\<close>
        show ?thesis by (simp add: author_entry_def)
      next
        case False
        with \<open>find_first line ''a'' [] = Some a\<close> href Cons.prems
        have "get_author_loop lines acc = Inr authors" by simp
        from Cons.IH [OF this] False href \<open>find_first line ''a'' [] = Some a\<close>
        show ?thesis by (simp add: author_entry_def)
      qed
    qed
  qed
qed

lemma length_author_entry: "length (author_entry line) \<le> 1"
  by (simp add: author_entry_def split: option.splits)

lemma length_concat_entries: "length (concat (map author_entry lines)) \<le> length lines"
proof (induction lines)
  case Nil
  show ?case by simp
next
  case (Cons line lines)
  have "length (author_entry line) \<le> 1" by (rule length_author_entry)
  with Cons show ?case by simp
qed

lemma title_loop_result:
  "title_loop lines ts ws = Inr (titles, websites) \<Longrightarrow>
     titles = ts @ map (\<lambda>l. get l ''title'') lines \<and>
     websites = ws @ map (\<lambda>l. site @ the (get l ''href'')) lines"
proof (induction lines arbitrary: ts ws)
  case Nil
  then show ?case by simp
next
  case (Cons line lines)
  from Cons.prems obtain h where h: "get line ''href'' = Some h"
    and rest: "title_loop lines (ts @ [get line ''title'']) (ws @ [site @ h]) = Inr (titles, websites)"
    by (cases "get line ''href''") simp_all
  from Cons.IH [OF rest] h show ?case by simp
qed

lemma DataFrame_rows:
  assumes "length authors = n" and "length titles = n" and "length websites = n"
  shows "\<exists>rows. DataFrame authors titles websites = Inr rows \<and> length rows = n \<and>
           (\<forall>i<n. author (rows ! i) = authors ! i \<and> title (rows ! i) = titles ! i \<and>
                   website (rows ! i) = websites ! i)"
  using assms by (simp add: DataFrame_def)

lemma fetch_listing_net:
  "fetch_page listing_net u 0 [] = Inr (Some two_book_listing, [u])"
  by (simp add: fetch_page.simps listing_net_def)

lemma fetch_page_timeouts:
  "\<forall>k<5 - attempts. net (length log + k) url = Raises Timeout \<Longrightarrow>
     fetch_page net url attempts log = Inr (None, log @ replicate (5 - attempts) url)"
proof (induction net url attempts log rule: fetch_page.induct)
  case (1 net url attempts log)
  show ?case
  proof (cases "attempts < 5")
    case False
    then show ?thesis by (simp add: fetch_page.simps)
  next
    case True
    with "1.prems" have now: "net (length log) url = Raises Timeout"
      by (metis add.right_neutral zero_less_diff)
    have later: "\<forall>k<5 - (attempts + 1). net (length (log @ [url]) + k) url = Raises Timeout"
    proof (intro allI impI)
      fix k assume "k < 5 - (attempts + 1)"
      then have "Suc k < 5 - attempts" by simp
      with "1.prems" have "net (length log + Suc k) url = Raises Timeout" by blast
      then show "net (length (log @ [url]) + k) url = Raises Timeout" by simp
    qed
    from True have split: "5 - attempts = Suc (5 - (attempts + 1))" by simp
    have "fetch_page net url attempts log = fetch_page net url (attempts + 1) (log @ [url])"
      using True now by (simp add: fetch_page.simps)
    also have "\<dots> = Inr (None, (log @ [url]) @ replicate (5 - (attempts + 1)) url)"
      using "1.IH" [OF True now _ later] by simp
    also have "(log @ [url]) @ replicate (5 - (attempts + 1)) url = log @ replicate (5 - attempts) url"
      by (simp only: split replicate_Suc append_assoc append_Cons append_Nil)
    finally show ?thesis .
  qed
qed

lemma fetch_page_skip_timeouts:
  "attempts + k \<le> 5 \<Longrightarrow> \<forall>j<k. net (length log + j) url = Raises Timeout \<Longrightarrow>
     fetch_page net url attempts log = fetch_page net url (attempts + k) (log @ replicate k url)"
proof (induction k arbitrary: attempts log)
  case 0
  show ?case by simp
next
  case (Suc k)
  from Suc.prems have lt: "attempts < 5" and le: "(attempts + 1) + k \<le> 5" by simp_all
  from Suc.prems have now: "net (length log) url = Raises Timeout"
    by (metis add.right_neutral zero_less_Suc)
  have later: "\<forall>j<k. net (length (log @ [url]) + j) url = Raises Timeout"
  proof (intro allI impI)
    fix j assume "j < k"
    then have "Suc j < Suc k" by simp
    with Suc.prems(2) have "net (length log + Suc j) url = Raises Timeout" by blast
    then show "net (length (log @ [url]) + j) url = Raises Timeout" by simp
  qed
  have "fetch_page net url attempts log = fetch_page net url (attempts + 1) (log @ [url])"
    using lt now by (simp add: fetch_page.simps)
  also have "\<dots> = fetch_page net url ((attempts + 1) + k) ((log @ [url]) @ replicate k url)"
    by (rule Suc.IH [OF le later])
  finally show ?case by (simp add: replicate_app_Cons_same)
qed

lemma assign_link_raises: "assign_link link row df = (df', Some e) \<Longrightarrow> e = TypeError"
  by (auto simp: assign_link_def split: if_splits option.splits)

lemma assign_links_raises: "assign_links links row df = (df', Some e) \<Longrightarrow> e = TypeError"
proof (induction links arbitrary: df)
  case Nil
  then show ?case by simp
next
  case (Cons link links)
  obtain df1 r where a: "assign_link link row df = (df1, r)" by (cases "assign_link link row df")
  show ?case
  proof (cases r)
    case None
    with a Cons.prems have "assign_links links row df1 = (df', Some e)" by simp
    then show ?thesis by (rule Cons.IH)
  next
    case (Some e1)
    with a Cons.prems have "e = e1" by simp
    with a Some show ?thesis using assign_link_raises by blast
  qed
qed

lemma parse_details_caught:
  assumes "parse_details soup row df = (df', Some e)" and "e \<noteq> TypeError"
    and "row < length df"
  shows "\<exists>d g. df' = df[row := (df ! row)\<lparr>description := d, genre := g\<rparr>]"
proof (cases "find_first soup ''div'' [(''class'', ''realign''), (''id'', ''sinopsis'')]")
  case None
  with assms(1) have "df' = df" by (simp add: parse_details_def)
  then have "df' = df[row := (df ! row)\<lparr>description := description (df ! row),
      genre := genre (df ! row)\<rparr>]" by simp
  then show ?thesis by blast
next
  case (Some s)
  note sinopsis = Some
  show ?thesis
  proof (cases "find_first soup ''div'' [(''id'', ''genero'')]")
    case None
    with sinopsis assms(1)
    have "df' = df[row := (df ! row)\<lparr>description := Some (strip (text_of s))\<rparr>]"
      by (simp add: parse_details_def)
    then have "df' = df[row := (df ! row)\<lparr>description := Some (strip (text_of s)),
      genre := genre (df ! row)\<rparr>]" by simp
    then show ?thesis by blast
  next
    case (Some g)
    note genero = Some
    show ?thesis
    proof (cases "find_first soup ''div'' [(''id'', ''downloadContainer'')]")
      case None
      with sinopsis genero assms(1,3)
      have "df' = df[row := (df ! row)\<lparr>description := Some (strip (text_of s)),
        genre := Some (join '' / '' (map text_of (find_all g ''a'' [])))\<rparr>]"
        by (simp add: parse_details_def Let_def)
      then show ?thesis by blast
    next
      case (Some c)
      with sinopsis genero assms(1)
      have "\<exists>df2. assign_links (find_all c ''a'' []) row df2 = (df', Some e)"
        by (auto simp: parse_details_def Let_def)
      with assms(2) show ?thesis using assign_links_raises by blast
    qed
  qed
qed

lemma attempt_caught:
  assumes "attempt net row df log = (df', Some e, log')"
    and "is_RequestException e \<or> e = AttributeError"
  shows "row < length df \<and> log' = log @ [website (df ! row)] \<and>
         (\<exists>d g. df' = df[row := (df ! row)\<lparr>description := d, genre := g\<rparr>])"
proof (cases "row < length df")
  case False
  with assms show ?thesis by (auto simp: attempt_def)
next
  case True
  show ?thesis
  proof (cases "net (length log) (website (df ! row))")
    case (Raises x)
    with True assms(1) have "df' = df" and l: "log' = log @ [website (df ! row)]"
      by (auto simp: attempt_def)
    then have "df' = df[row := (df ! row)\<lparr>description := description (df ! row),
      genre := genre (df ! row)\<rparr>]" by simp
    with True l show ?thesis by blast
  next
    case (Response soup)
    with True assms(1) have p: "parse_details soup row df = (df', Some e)"
      and l: "log' = log @ [website (df ! row)]"
      by (auto simp: attempt_def split: prod.splits)
    from assms(2) have "e \<noteq> TypeError" by auto
    from parse_details_caught [OF p this True] True l show ?thesis by blast
  qed
qed

lemma details_loop_exhausted:
  "details_loop net row df attempts log = Inr (df', False, log') \<Longrightarrow>
     \<exists>d g. df' = df[row := (df ! row)\<lparr>description := d, genre := g\<rparr>]"
proof (induction net row df attempts log rule: details_loop.induct)
  case (1 net row df attempts log)
  show ?case
  proof (cases "attempts < 5")
    case False
    with "1.prems" have "df' = df" by (simp add: details_loop.simps)
    then have "df' = df[row := (df ! row)\<lparr>description := description (df ! row),
      genre := genre (df ! row)\<rparr>]" by simp
    then show ?thesis by blast
  next
    case True
    obtain df1 r log1 where a: "attempt net row df log = (df1, r, log1)"
      by (cases "attempt net row df log")
    show ?thesis
    proof (cases r)
      case None
      with True a "1.prems" show ?thesis by (simp add: details_loop.simps)
    next
      case (Some e)
      with True a "1.prems" have c: "is_RequestException e \<or> e = AttributeError"
        and rest: "details_loop net row df1 (attempts + 1) log1 = Inr (df', False, log')"
        by (auto simp: details_loop.simps split: if_splits)
      from a Some have a': "attempt net row df log = (df1, Some e, log1)" by simp
      from attempt_caught [OF a' c] obtain d g where lt: "row < length df"
        and df1: "df1 = df[row := (df ! row)\<lparr>description := d, genre := g\<rparr>]" by blast
      from "1.IH" [OF True a' [symmetric] refl refl c rest] obtain d' g'
        where "df' = df1[row := (df1 ! row)\<lparr>description := d', genre := g'\<rparr>]"
        by auto
      with df1 lt have "df' = df[row := (df ! row)\<lparr>description := d', genre := g'\<rparr>]"
        by simp
      then show ?thesis by blast
    qed
  qed
qed

lemma details_loop_skip_errors:
  "row < length df \<Longrightarrow> attempts + k \<le> 5 \<Longrightarrow>
   \<forall>j<k. \<exists>e. net (length log + j) (website (df ! row)) = Raises e \<and> is_RequestException e \<Longrightarrow>
     details_loop net row df attempts log =
     details_loop net row df (attempts + k) (log @ replicate k (website (df ! row)))"
proof (induction k arbitrary: attempts log)
  case 0
  show ?case by simp
next
  case (Suc k)
  let ?url = "website (df ! row)"
  from Suc.prems have lt: "attempts < 5" and le: "(attempts + 1) + k \<le> 5" by simp_all
  from Suc.prems(3) obtain e where now: "net (length log) ?url = Raises e"
    and req: "is_RequestException e"
    by (metis add.right_neutral zero_less_Suc)
  have later: "\<forall>j<k. \<exists>e. net (length (log @ [?url]) + j) ?url = Raises e \<and> is_RequestException e"
  proof (intro allI impI)
    fix j assume "j < k"
    then have "Suc j < Suc k" by simp
    with Suc.prems(3)
    have "\<exists>e. net (length log + Suc j) ?url = Raises e \<and> is_RequestException e" by blast
    then show "\<exists>e. net (length (log @ [?url]) + j) ?url = Raises e \<and> is_RequestException e"
      by simp
  qed
  have "details_loop net row df attempts log = details_loop net row df (attempts + 1) (log @ [?url])"
    using lt now req Suc.prems(1) by (simp add: details_loop.simps [of net row df attempts] attempt_def)
  also have "\<dots> = details_loop net row df ((attempts + 1) + k) ((log @ [?url]) @ replicate k ?url)"
    by (rule Suc.IH [OF Suc.prems(1) le later])
  finally show ?case by (simp add: replicate_app_Cons_same)
qed

lemma details_loop_untouched:
  "details_loop net row df attempts log = Inr (df', False, log') \<Longrightarrow>
   \<forall>k<5 - attempts. \<forall>soup. net (length log + k) (website (df ! row)) = Response soup \<longrightarrow>
      find_first soup ''div'' [(''class'', ''realign''), (''id'', ''sinopsis'')] = None \<Longrightarrow>
   df' = df"
proof (induction net row df attempts log rule: details_loop.induct)
  case (1 net row df attempts log)
  let ?url = "website (df ! row)"
  show ?case
  proof (cases "attempts < 5")
    case False
    with "1.prems"(1) show ?thesis by (simp add: details_loop.simps)
  next
    case True
    obtain df1 r log1 where a: "attempt net row df log = (df1, r, log1)"
      by (cases "attempt net row df log")
    show ?thesis
    proof (cases r)
      case None
      with True a "1.prems"(1) show ?thesis by (simp add: details_loop.simps)
    next
      case (Some e)
      with True a "1.prems"(1) have c: "is_RequestException e \<or> e = AttributeError"
        and rest: "details_loop net row df1 (attempts + 1) log1 = Inr (df', False, log')"
        by (auto simp: details_loop.simps split: if_splits)
      from a Some have a': "attempt net row df log = (df1, Some e, log1)" by simp
      from attempt_caught [OF a' c] have lt: "row < length df"
        and l1: "log1 = log @ [?url]" by simp_all
      from True "1.prems"(2)
      have now: "\<forall>soup. net (length log) ?url = Response soup \<longrightarrow>
         find_first soup ''div'' [(''class'', ''realign''), (''id'', ''sinopsis'')] = None"
        by (metis add.right_neutral zero_less_diff)
      have same: "df1 = df"
      proof (cases "net (length log) ?url")
        case (Raises x)
        with a' lt show ?thesis by (simp add: attempt_def)
      next
        case (Response soup)
        with now have "find_first soup ''div'' [(''class'', ''realign''), (''id'', ''sinopsis'')] = None"
          by blast
        with Response a' lt show ?thesis by (simp add: attempt_def parse_details_def)
      qed
      have later: "\<forall>k<5 - (attempts + 1). \<forall>soup.
          net (length log1 + k) (website (df1 ! row)) = Response soup \<longrightarrow>
          find_first soup ''div'' [(''class'', ''realign''), (''id'', ''sinopsis'')] = None"
      proof (intro allI impI)
        fix k soup
        assume k: "k < 5 - (attempts + 1)"
          and n: "net (length log1 + k) (website (df1 ! row)) = Response soup"
        from k have "Suc k < 5 - attempts" by simp
        moreover from n same l1 have "net (length log + Suc k) ?url = Response soup" by simp
        ultimately show "find_first soup ''div'' [(''class'', ''realign''), (''id'', ''sinopsis'')] = None"
          using "1.prems"(2) by blast
      qed
      from "1.IH" [OF True a' [symmetric] refl refl c rest later] same show ?thesis by simp
    qed
  qed
qed

lemma flaky_exhausted:
  "details_loop flaky_net 0 one_book 0 [] =
     Inr (one_book, False, replicate 5 ''https://www.lectulandia.co/book/uno/'')"
  by (simp add: details_loop.simps attempt_def one_book_def flaky_net_def empty_page_def
      parse_details_def find_first_def find_all_def numeral_eq_Suc)


















subsection \<open>Download links\<close>

text \<open>
  Claim C5. For a download container whose links have the texts \<^verbatim>\<open>Descargar EPUB\<close>,
  \<^verbatim>\<open>Descargar PDF\<close> and \<^verbatim>\<open>Unrelated\<close>, in this order, the loop over the links
  stores the site followed by the first link's target in the field epub of the row, the
  site followed by the second link's target in the field pdf, and stores nothing for
  the third link (whether it has a target or not). No exception is raised.
\<close>

theorem download_links_classified:
  assumes "find_all c ''a'' [] = [l1, l2, l3]"
    and "text_of l1 = ''Descargar EPUB''" and "text_of l2 = ''Descargar PDF''"
    and "text_of l3 = ''Unrelated''"
    and "get l1 ''href'' = Some h1" and "get l2 ''href'' = Some h2"
    and "row < length df"
  shows "assign_links (find_all c ''a'' []) row df =
           (df[row := (df ! row)\<lparr>epub := Some (site @ h1), pdf := Some (site @ h2)\<rparr>], None)"
  using assms by (simp add: assign_link_def lower_def lower_char_def)

theorem download_links_classified_witness:
  "assign_links (find_all download_page ''a'' []) 0 one_book =
     ([\<lparr>author = Some ''Ana'', title = Some ''Uno'', website = ''https://www.lectulandia.co/book/uno/'',
       genre = None, description = None, 
       epub = Some ''https://www.lectulandia.co/e.epub'',
       pdf = Some ''https://www.lectulandia.co/p.pdf''\<rparr>], None)"
  using download_links_classified [of download_page
      "Tag ''a'' [(''href'', ''/e.epub'')] [Text ''Descargar EPUB'']"
      "Tag ''a'' [(''href'', ''/p.pdf'')] [Text ''Descargar PDF'']"
      "Tag ''a'' [(''href'', ''/x'')] [Text ''Unrelated'']" "''/e.epub''" "''/p.pdf''" 0 one_book]
  by (simp add: download_page_def one_book_def find_all_def site_def)

text \<open>
  Claim C10. For a download link whose lower-cased text contains both \<^verbatim>\<open>epub\<close> and
  \<^verbatim>\<open>pdf\<close>, the round of the loop takes the epub branch only: it writes the field
  epub of the row (or raises, for a link without target) and leaves the column pdf of
  the whole table as it was.
\<close>

theorem epub_wins_over_pdf:
  assumes "contains ''epub'' (lower (text_of link))"
    and "contains ''pdf'' (lower (text_of link))"
  shows "assign_link link row df =
           (case get link ''href'' of
              None \<Rightarrow> (df, Some TypeError)
            | Some h \<Rightarrow> (df[row := (df ! row)\<lparr>epub := Some (site @ h)\<rparr>], None))
         \<and> map pdf (fst (assign_link link row df)) = map pdf df"
proof -
  have eq: "assign_link link row df =
           (case get link ''href'' of
              None \<Rightarrow> (df, Some TypeError)
            | Some h \<Rightarrow> (df[row := (df ! row)\<lparr>epub := Some (site @ h)\<rparr>], None))"
    using assms(1) by (simp add: assign_link_def)
  have "map pdf (fst (assign_link link row df)) = map pdf df"
    unfolding eq by (cases "get link ''href''") (simp_all add: map_update map_field_update_same)
  with eq show ?thesis by simp
qed

theorem epub_wins_over_pdf_witness:
  "assign_link (Tag ''a'' [(''href'', ''/b'')] [Text ''EPUB y PDF'']) 0 one_book =
     (one_book[0 := (one_book ! 0)\<lparr>epub := Some (site @ ''/b'')\<rparr>], None)
   \<and> map pdf (fst (assign_link (Tag ''a'' [(''href'', ''/b'')] [Text ''EPUB y PDF'']) 0 one_book))
       = map pdf one_book"
  using epub_wins_over_pdf [of "Tag ''a'' [(''href'', ''/b'')] [Text ''EPUB y PDF'']" 0 one_book]
  by (simp add: lower_def lower_char_def one_book_def)

subsection \<open>The author extractor\<close>

text \<open>
  Claim C7, as stated, fails: an attribution element whose link does not point to an
  author contributes no entry at all. The example is a listing with one such element.
\<close>

theorem one_entry_per_attribution_counterexample:
  "get_author genre_listing = Inr []
   \<and> length (find_all genre_listing ''div'' [(''class'', ''subdetail'')]) = 1"
  by (simp add: get_author_def genre_listing_def find_all_def attr_matches_def words_of_def
      is_space_def find_first_def)

text \<open>
  Claim C7, amended. When \<^verbatim>\<open>get_author\<close> returns, its result is the concatenation,
  in document order, of what each attribution element adds: the linked author name when
  the nested link's target contains the author marker, a null when the element has no
  nested link, and nothing when the nested link's target lacks the marker. So every
  attribution element contributes at most one entry.
\<close>

theorem author_entries:
  assumes "get_author soup = Inr authors"
  shows "authors = concat (map author_entry (find_all soup ''div'' [(''class'', ''subdetail'')]))
         \<and> length authors \<le> length (find_all soup ''div'' [(''class'', ''subdetail'')])"
proof -
  let ?lines = "find_all soup ''div'' [(''class'', ''subdetail'')]"
  from assms have "get_author_loop ?lines [] = Inr authors"
    by (simp add: get_author_def)
  then have eq: "authors = concat (map author_entry ?lines)"
    using get_author_loop_entries by fastforce
  moreover have "length (concat (map author_entry ?lines)) \<le> length ?lines"
    by (rule length_concat_entries)
  ultimately show ?thesis by simp
qed

theorem author_entries_witness:
  "get_author author_listing = Inr [Some ''Ana'', None]
   \<and> [Some ''Ana'', None] =
       concat (map author_entry (find_all author_listing ''div'' [(''class'', ''subdetail'')]))
   \<and> length [Some ''Ana'', None :: string option]
       \<le> length (find_all author_listing ''div'' [(''class'', ''subdetail'')])"
proof -
  have g: "get_author author_listing = Inr [Some ''Ana'', None]"
    by (simp add: get_author_def author_listing_def find_all_def attr_matches_def words_of_def
      is_space_def find_first_def)
  show ?thesis by (rule conjI [OF g author_entries [OF g]])
qed

subsection \<open>The rows of a listing page\<close>

text \<open>
  Claim C4. For a listing page with \<open>N\<close> title links for which the author extractor
  gives \<open>N\<close> authors and the title extractor gives the titles and the websites, the
  table of the page has exactly \<open>N\<close> rows, and row \<open>i\<close> holds author \<open>i\<close>, title \<open>i\<close>
  (the title attribute of link \<open>i\<close>) and website \<open>i\<close> (the site followed by the target
  of link \<open>i\<close>). When the page was fetched, these are the rows that the driver appends to
  the accumulated table before it goes on with the next page.
\<close>

theorem rows_of_listing_page:
  assumes "get_author soup = Inr authors"
    and "get_title_and_website soup = Inr (titles, websites)"
    and "links = find_all soup ''a'' [(''class'', ''title'')]"
    and "length authors = length links"
  shows "\<exists>rows. page_rows soup = Inr rows \<and> length rows = length links \<and>
           (\<forall>i<length links.
              author (rows ! i) = authors ! i \<and>
              title (rows ! i) = titles ! i \<and> titles ! i = get (links ! i) ''title'' \<and>
              website (rows ! i) = websites ! i \<and>
              websites ! i = site @ the (get (links ! i) ''href'')) \<and>
           (fetch_page net (page_url page) 0 log = Inr (Some soup, log') \<longrightarrow>
              scrape_pages net (page # pages) df log = scrape_pages net pages (df @ rows) log')"
proof -
  from assms(2,3) have tl: "title_loop links [] [] = Inr (titles, websites)"
    by (simp add: get_title_and_website_def)
  from title_loop_result [OF tl]
  have t: "titles = map (\<lambda>l. get l ''title'') links"
    and w: "websites = map (\<lambda>l. site @ the (get l ''href'')) links"
    by simp_all
  have lt: "length titles = length links" and lw: "length websites = length links"
    by (simp_all add: t w)
  from DataFrame_rows [OF assms(4) lt lw] obtain rows
    where r: "DataFrame authors titles websites = Inr rows"
      and n: "length rows = length links"
      and f: "\<forall>i<length links. author (rows ! i) = authors ! i \<and>
                title (rows ! i) = titles ! i \<and> website (rows ! i) = websites ! i"
    by blast
  have p: "page_rows soup = Inr rows"
    using assms(1,2) r by (simp add: page_rows_def)
  have s: "fetch_page net (page_url page) 0 log = Inr (Some soup, log') \<longrightarrow>
              scrape_pages net (page # pages) df log = scrape_pages net pages (df @ rows) log'"
    using p by simp
  have e: "\<forall>i<length links. titles ! i = get (links ! i) ''title'' \<and>
              websites ! i = site @ the (get (links ! i) ''href'')"
    by (simp add: t w)
  from p n f e s show ?thesis by blast
qed

theorem rows_of_listing_page_witness:
  "page_rows two_book_listing =
     Inr [\<lparr>author = Some ''Ana'', title = Some ''Uno'',
           website = ''https://www.lectulandia.co/book/uno/'',
           genre = None, description = None, epub = None, pdf = None\<rparr>,
          \<lparr>author = None, title = Some ''Dos'',
           website = ''https://www.lectulandia.co/book/dos/'',
           genre = None, description = None, epub = None, pdf = None\<rparr>]
   \<and> scrape_pages listing_net [1] [] [] =
       scrape_pages listing_net []
         ([] @ [\<lparr>author = Some ''Ana'', title = Some ''Uno'',
                  website = ''https://www.lectulandia.co/book/uno/'',
                  genre = None, description = None, epub = None, pdf = None\<rparr>,
                 \<lparr>author = None, title = Some ''Dos'',
                  website = ''https://www.lectulandia.co/book/dos/'',
                  genre = None, description = None, epub = None, pdf = None\<rparr>])
         [page_url 1]"
proof -
  let ?links = "find_all two_book_listing ''a'' [(''class'', ''title'')]"
  have l: "?links =
     [Tag ''a'' [(''class'', ''title''), (''title'', ''Uno''), (''href'', ''/book/uno/'')] [Text ''Uno''],
      Tag ''a'' [(''class'', ''title''), (''title'', ''Dos''), (''href'', ''/book/dos/'')] [Text ''Dos'']]"
    by (simp add: two_book_listing_def find_all_def attr_matches_def words_of_def is_space_def)
  have a: "get_author two_book_listing = Inr [Some ''Ana'', None]"
    by (simp add: get_author_def two_book_listing_def find_all_def attr_matches_def words_of_def
        is_space_def find_first_def)
  have t: "get_title_and_website two_book_listing =
     Inr ([Some ''Uno'', Some ''Dos''],
          [''https://www.lectulandia.co/book/uno/'', ''https://www.lectulandia.co/book/dos/''])"
    by (simp add: get_title_and_website_def l site_def)
  have n: "length [Some ''Ana'', None :: string option] = length ?links"
    by (simp add: l)
  have f: "fetch_page listing_net (page_url 1) 0 [] = Inr (Some two_book_listing, [page_url 1])"
    by (rule fetch_listing_net)
  have p: "page_rows two_book_listing =
     Inr [\<lparr>author = Some ''Ana'', title = Some ''Uno'',
           website = ''https://www.lectulandia.co/book/uno/'',
           genre = None, description = None, epub = None, pdf = None\<rparr>,
          \<lparr>author = None, title = Some ''Dos'',
           website = ''https://www.lectulandia.co/book/dos/'',
           genre = None, description = None, epub = None, pdf = None\<rparr>]"
    by (simp add: page_rows_def a t DataFrame_def)
  from rows_of_listing_page [OF a t refl n, of listing_net 1 "[]" "[page_url 1]" "[]" "[]"]
  obtain rows where r: "page_rows two_book_listing = Inr rows"
    and s: "fetch_page listing_net (page_url 1) 0 [] = Inr (Some two_book_listing, [page_url 1]) \<longrightarrow>
              scrape_pages listing_net [1] [] [] =
              scrape_pages listing_net [] ([] @ rows) [page_url 1]"
    by blast
  from s f have "scrape_pages listing_net [1] [] [] =
              scrape_pages listing_net [] ([] @ rows) [page_url 1]"
    by (rule mp)
  moreover from r p have "rows =
         [\<lparr>author = Some ''Ana'', title = Some ''Uno'',
           website = ''https://www.lectulandia.co/book/uno/'',
           genre = None, description = None, epub = None, pdf = None\<rparr>,
          \<lparr>author = None, title = Some ''Dos'',
           website = ''https://www.lectulandia.co/book/dos/'',
           genre = None, description = None, epub = None, pdf = None\<rparr>]"
    by simp
  ultimately show ?thesis using p by simp
qed

subsection \<open>Timeouts\<close>

text \<open>
  Claim C1. When the five requests for a listing page all time out, the loop of
  \<^verbatim>\<open>scrape_books\<close> ends its retries without a page and without an exception, adds no
  row to the accumulated table, and goes on with the remaining page numbers.
\<close>

theorem timed_out_page_skipped:
  assumes "\<forall>k<5. net (length log + k) (page_url page) = Raises Timeout"
  shows "fetch_page net (page_url page) 0 log = Inr (None, log @ replicate 5 (page_url page))
         \<and> scrape_pages net (page # pages) df log =
             scrape_pages net pages df (log @ replicate 5 (page_url page))"
proof -
  have f: "fetch_page net (page_url page) 0 log = Inr (None, log @ replicate 5 (page_url page))"
    using fetch_page_timeouts [where attempts = 0 and net = net and log = log
        and url = "page_url page"] assms
    by simp
  then show ?thesis by simp
qed

theorem timed_out_page_skipped_witness:
  "scrape_pages slow_start_net [1, 2] [] [] =
       scrape_pages slow_start_net [2] [] ([] @ replicate 5 (page_url 1))
   \<and> scrape_pages slow_start_net [2] [] ([] @ replicate 5 (page_url 1)) =
       Inr ([\<lparr>author = Some ''Ana'', title = Some ''Uno'',
              website = ''https://www.lectulandia.co/book/uno/'',
              genre = None, description = None, epub = None, pdf = None\<rparr>,
             \<lparr>author = None, title = Some ''Dos'',
              website = ''https://www.lectulandia.co/book/dos/'',
              genre = None, description = None, epub = None, pdf = None\<rparr>],
            replicate 5 (page_url 1) @ [page_url 2])"
proof -
  have h: "\<forall>k<5. slow_start_net (length ([] :: string list) + k) (page_url 1) = Raises Timeout"
    by (simp add: slow_start_net_def)
  have c: "scrape_pages slow_start_net [2] [] ([] @ replicate 5 (page_url 1)) =
       Inr ([\<lparr>author = Some ''Ana'', title = Some ''Uno'',
              website = ''https://www.lectulandia.co/book/uno/'',
              genre = None, description = None, epub = None, pdf = None\<rparr>,
             \<lparr>author = None, title = Some ''Dos'',
              website = ''https://www.lectulandia.co/book/dos/'',
              genre = None, description = None, epub = None, pdf = None\<rparr>],
            replicate 5 (page_url 1) @ [page_url 2])"
    by (simp add: fetch_page.simps slow_start_net_def page_rows_def get_author_def
        get_title_and_website_def two_book_listing_def find_all_def attr_matches_def
        words_of_def is_space_def find_first_def DataFrame_def site_def)
  from timed_out_page_skipped [where net = slow_start_net and log = "[]" and page = 1
      and pages = "[2]" and df = "[]"] h c
  show ?thesis by blast
qed

text \<open>
  Claim C3. When the five requests for the detail page of a row all time out,
  \<^verbatim>\<open>get_book_details\<close> returns with the table exactly as it was: the row is still
  there, and its description, genre, epub and pdf have their earlier values.
\<close>

theorem detail_timeouts_leave_row:
  assumes "row < length df"
    and "\<forall>k<5. net (length log + k) (website (df ! row)) = Raises Timeout"
  shows "get_book_details net row df log = Inr (df, log @ replicate 5 (website (df ! row)))"
proof -
  from assms(2)
  have "\<forall>j<5. \<exists>e. net (length log + j) (website (df ! row)) = Raises e \<and> is_RequestException e"
    by simp
  with assms(1) have "details_loop net row df 0 log =
     details_loop net row df (0 + 5) (log @ replicate 5 (website (df ! row)))"
    by (intro details_loop_skip_errors) simp_all
  then show ?thesis by (simp add: get_book_details_def details_loop.simps)
qed

theorem detail_timeouts_leave_row_witness:
  "0 < length one_book
   \<and> get_book_details timeout_net 0 one_book [] =
       Inr (one_book, replicate 5 ''https://www.lectulandia.co/book/uno/'')"
proof -
  have a: "0 < length one_book" by (simp add: one_book_def)
  have b: "\<forall>k<5. timeout_net (length ([] :: string list) + k) (website (one_book ! 0)) = Raises Timeout"
    by (simp add: timeout_net_def)
  from detail_timeouts_leave_row [where net = timeout_net and row = 0 and df = one_book
      and log = "[]"] a b
  have "get_book_details timeout_net 0 one_book [] =
       Inr (one_book, replicate 5 ''https://www.lectulandia.co/book/uno/'')"
    by (simp add: one_book_def)
  with a b show ?thesis by blast
qed

subsection \<open>Exhausted attempts of the detail parser\<close>

text \<open>
  Claim C2, as stated, fails: the description is written into the row before the genre
  container is looked up. On a detail page that has the description but no genre
  container every attempt raises \<^verbatim>\<open>AttributeError\<close>; after the fifth the row holds
  the description of the page, not the null it held before the call.
\<close>

theorem exhausted_details_keep_fields_counterexample:
  "parse_details no_genre_page 0 one_book =
     ([\<lparr>author = Some ''Ana'', title = Some ''Uno'',
        website = ''https://www.lectulandia.co/book/uno/'',
        genre = None, description = Some ''Resumen'', epub = None, pdf = None\<rparr>],
      Some AttributeError)
   \<and> details_loop no_genre_net 0 one_book 0 [] =
     Inr ([\<lparr>author = Some ''Ana'', title = Some ''Uno'',
            website = ''https://www.lectulandia.co/book/uno/'',
            genre = None, description = Some ''Resumen'', epub = None, pdf = None\<rparr>],
          False, replicate 5 ''https://www.lectulandia.co/book/uno/'')
   \<and> description (one_book ! 0) = None"
  by (simp add: details_loop.simps attempt_def one_book_def no_genre_net_def no_genre_page_def
      parse_details_def find_first_def find_all_def attr_matches_def words_of_def is_space_def
      strip_def numeral_eq_Suc)

text \<open>
  Claim C2, amended. When \<^verbatim>\<open>get_book_details\<close> exhausts its five attempts, the
  function returns, the table has the same rows, the row still holds its author, title,
  website, epub and pdf, and every other row is as before. The description and the genre
  of the row are as before too when no attempt received a page that has the description
  container (every attempt failed at the request or at the missing description).
\<close>

theorem exhausted_details_keep_links:
  assumes "details_loop net row df 0 log = Inr (df', False, log')"
  shows "get_book_details net row df log = Inr (df', log')
    \<and> row < length df \<and> length df' = length df
    \<and> (\<forall>j<length df. author (df' ! j) = author (df ! j) \<and> title (df' ! j) = title (df ! j) \<and>
          website (df' ! j) = website (df ! j) \<and>
          epub (df' ! j) = epub (df ! j) \<and> pdf (df' ! j) = pdf (df ! j))
    \<and> (\<forall>j<length df. j \<noteq> row \<longrightarrow> df' ! j = df ! j)
    \<and> ((\<forall>k<5. \<forall>soup. net (length log + k) (website (df ! row)) = Response soup \<longrightarrow>
            find_first soup ''div'' [(''class'', ''realign''), (''id'', ''sinopsis'')] = None)
         \<longrightarrow> df' = df)"
proof -
  from assms have g: "get_book_details net row df log = Inr (df', log')"
    by (simp add: get_book_details_def)
  from details_loop_exhausted [OF assms] obtain d g
    where eq: "df' = df[row := (df ! row)\<lparr>description := d, genre := g\<rparr>]" by blast
  have lt: "row < length df"
  proof (rule ccontr)
    assume "\<not> row < length df"
    then have "attempt net row df log = (df, Some KeyError, log)" by (simp add: attempt_def)
    then have "details_loop net row df 0 log = Inl KeyError" by (simp add: details_loop.simps)
    with assms show False by simp
  qed
  have len: "length df' = length df" by (simp add: eq)
  have fields: "\<forall>j<length df. author (df' ! j) = author (df ! j) \<and> title (df' ! j) = title (df ! j) \<and>
          website (df' ! j) = website (df ! j) \<and>
          epub (df' ! j) = epub (df ! j) \<and> pdf (df' ! j) = pdf (df ! j)"
    using lt by (auto simp: eq nth_list_update)
  have others: "\<forall>j<length df. j \<noteq> row \<longrightarrow> df' ! j = df ! j"
    by (simp add: eq)
  have untouched: "(\<forall>k<5. \<forall>soup. net (length log + k) (website (df ! row)) = Response soup \<longrightarrow>
            find_first soup ''div'' [(''class'', ''realign''), (''id'', ''sinopsis'')] = None)
         \<longrightarrow> df' = df"
    using details_loop_untouched [OF assms] by simp
  from g lt len fields others untouched show ?thesis by blast
qed

theorem exhausted_details_keep_links_witness:
  "details_loop flaky_net 0 one_book 0 [] =
     Inr (one_book, False, replicate 5 ''https://www.lectulandia.co/book/uno/'')
   \<and> get_book_details flaky_net 0 one_book [] =
     Inr (one_book, replicate 5 ''https://www.lectulandia.co/book/uno/'')
   \<and> length one_book = 1"
proof -
  have "\<forall>k<5. \<forall>soup. flaky_net (length ([] :: string list) + k) (website (one_book ! 0)) = Response soup \<longrightarrow>
            find_first soup ''div'' [(''class'', ''realign''), (''id'', ''sinopsis'')] = None"
    by (auto simp: flaky_net_def empty_page_def find_first_def find_all_def)
  with exhausted_details_keep_links [OF flaky_exhausted] flaky_exhausted
  show ?thesis by (simp add: one_book_def)
qed

subsection \<open>Which errors are retried\<close>

text \<open>
  Claim C6. In the listing path a timeout is answered by another attempt, the loop
  makes no attempt once five have failed, and any other exception leaves the loop at
  once: it ends \<^verbatim>\<open>scrape_books\<close> and the main program with that exception, whatever
  number of timeouts came before it. In the detail path every
  \<^verbatim>\<open>RequestException\<close>, a timeout or not, is answered by another attempt, and after
  five of them the loop ends without an exception.
\<close>

theorem retry_policy:
  "(attempts + k \<le> 5 \<and> (\<forall>j<k. net (length log + j) url = Raises Timeout) \<longrightarrow>
      fetch_page net url attempts log =
      fetch_page net url (attempts + k) (log @ replicate k url))
   \<and> fetch_page net url 5 log = Inr (None, log)
   \<and> (attempts < 5 \<and> net (length log) url = Raises e \<and> e \<noteq> Timeout \<longrightarrow>
        fetch_page net url attempts log = Inl e)
   \<and> (k < 5 \<and> (\<forall>j<k. net (length log + j) (page_url page) = Raises Timeout) \<and>
        net (length log + k) (page_url page) = Raises e \<and> e \<noteq> Timeout \<longrightarrow>
        scrape_pages net (page # pages) df log = Inl e)
   \<and> (net 0 INITIAL_URL = Response soup \<and> total_pages soup = Inr n \<and>
        scrape_books net n [INITIAL_URL] = Inl e \<longrightarrow> main net = Inl e)
   \<and> (row < length df \<and> attempts + k \<le> 5 \<and>
        (\<forall>j<k. \<exists>x. net (length log + j) (website (df ! row)) = Raises x \<and>
                 is_RequestException x) \<longrightarrow>
        details_loop net row df attempts log =
        details_loop net row df (attempts + k) (log @ replicate k (website (df ! row))))
   \<and> details_loop net row df 5 log = Inr (df, False, log)"
proof -
  have c1: "attempts + k \<le> 5 \<and> (\<forall>j<k. net (length log + j) url = Raises Timeout) \<longrightarrow>
      fetch_page net url attempts log =
      fetch_page net url (attempts + k) (log @ replicate k url)"
    using fetch_page_skip_timeouts by blast
  have c2: "fetch_page net url 5 log = Inr (None, log)"
    by (simp add: fetch_page.simps)
  have c3: "attempts < 5 \<and> net (length log) url = Raises e \<and> e \<noteq> Timeout \<longrightarrow>
        fetch_page net url attempts log = Inl e" for attempts log url
    by (simp add: fetch_page.simps [of net url attempts])
  have c4: "k < 5 \<and> (\<forall>j<k. net (length log + j) (page_url page) = Raises Timeout) \<and>
        net (length log + k) (page_url page) = Raises e \<and> e \<noteq> Timeout \<longrightarrow>
        scrape_pages net (page # pages) df log = Inl e"
  proof (intro impI, elim conjE)
    let ?u = "page_url page"
    assume k: "k < 5" and t: "\<forall>j<k. net (length log + j) ?u = Raises Timeout"
      and e: "net (length log + k) ?u = Raises e" "e \<noteq> Timeout"
    from k have "0 + k \<le> 5" by simp
    with t have "fetch_page net ?u 0 log = fetch_page net ?u (0 + k) (log @ replicate k ?u)"
      by (rule fetch_page_skip_timeouts [where attempts = 0 and k = k and net = net
            and log = log and url = ?u, rotated])
    then have "fetch_page net ?u 0 log = fetch_page net ?u k (log @ replicate k ?u)" by simp
    also from k e have "\<dots> = Inl e"
      using c3 [of k "log @ replicate k ?u" ?u] by simp
    finally show "scrape_pages net (page # pages) df log = Inl e" by simp
  qed
  have c5: "net 0 INITIAL_URL = Response soup \<and> total_pages soup = Inr n \<and>
        scrape_books net n [INITIAL_URL] = Inl e \<longrightarrow> main net = Inl e"
    by (simp add: main_def)
  have c6: "row < length df \<and> attempts + k \<le> 5 \<and>
        (\<forall>j<k. \<exists>x. net (length log + j) (website (df ! row)) = Raises x \<and>
                 is_RequestException x) \<longrightarrow>
        details_loop net row df attempts log =
        details_loop net row df (attempts + k) (log @ replicate k (website (df ! row)))"
    using details_loop_skip_errors by blast
  have c7: "details_loop net row df 5 log = Inr (df, False, log)"
    by (simp add: details_loop.simps)
  from c1 c2 c3 c4 c5 c6 c7 show ?thesis by blast
qed

theorem retry_policy_witness:
  "fetch_page mixed_net ''u'' 0 [] = fetch_page mixed_net ''u'' 1 [''u'']
   \<and> fetch_page mixed_net ''u'' 1 [''u''] = Inl RequestError
   \<and> scrape_pages mixed_net [1, 2] [] [] = Inl RequestError
   \<and> main broken_site_net = Inl RequestError
   \<and> details_loop mixed_net 0 one_book 0 [] =
       Inr (one_book, False, replicate 5 ''https://www.lectulandia.co/book/uno/'')"
proof -
  have t: "\<forall>j<1. mixed_net (length ([] :: string list) + j) u = Raises Timeout" for u
    by (simp add: mixed_net_def)
  have r: "mixed_net (length [''u'']) ''u'' = Raises RequestError"
    by (simp add: mixed_net_def)
  have r1: "mixed_net (length ([] :: string list) + 1) (page_url 1) = Raises RequestError"
    by (simp add: mixed_net_def)
  have w1: "fetch_page mixed_net ''u'' 0 [] = fetch_page mixed_net ''u'' 1 [''u'']"
    using retry_policy [where attempts = 0 and k = 1 and net = mixed_net and log = "[]"
        and url = "''u''"] t
    by simp
  have w2: "fetch_page mixed_net ''u'' 1 [''u''] = Inl RequestError"
    using retry_policy [where attempts = 1 and net = mixed_net and log = "[''u'']"
        and url = "''u''" and e = RequestError] r
    by simp
  have w3: "scrape_pages mixed_net [1, 2] [] [] = Inl RequestError"
    using retry_policy [where k = 1 and net = mixed_net and log = "[]" and page = 1
        and e = RequestError and pages = "[2]" and df = "[]"] t r1
    by (simp del: scrape_pages.simps)
  have tp: "total_pages pagination_page = Inr 2"
    by (simp add: total_pages_def second_last_def pagination_page_def find_all_def
        attr_matches_def words_of_def is_space_def py_int_def remove_dots_def strip_def
        unsigned_int_def is_digit_def digit_val_def)
  have sb: "scrape_books broken_site_net 2 [INITIAL_URL] = Inl RequestError"
    by (simp add: scrape_books_def upto_rec1 fetch_page.simps broken_site_net_def)
  have w4: "main broken_site_net = Inl RequestError"
    using retry_policy [where net = broken_site_net and soup = pagination_page and n = 2
        and e = RequestError] tp sb
    by (simp add: broken_site_net_def)
  have er: "\<forall>j<5. \<exists>x. mixed_net (length ([] :: string list) + j) (website (one_book ! 0)) = Raises x \<and>
                 is_RequestException x"
    by (simp add: mixed_net_def)
  have w5: "details_loop mixed_net 0 one_book 0 [] =
       details_loop mixed_net 0 one_book 5 (replicate 5 ''https://www.lectulandia.co/book/uno/'')"
    using retry_policy [where row = 0 and df = one_book and attempts = 0 and k = 5
        and net = mixed_net and log = "[]"] er
    by (simp add: one_book_def)
  have w6: "details_loop mixed_net 0 one_book 5 (replicate 5 ''https://www.lectulandia.co/book/uno/'')
      = Inr (one_book, False, replicate 5 ''https://www.lectulandia.co/book/uno/'')"
    using retry_policy [where row = 0 and df = one_book and net = mixed_net
        and log = "replicate 5 ''https://www.lectulandia.co/book/uno/''"]
    by blast
  from w1 w2 w3 w4 w5 w6 show ?thesis by simp
qed

subsection \<open>The page count and the order of the pages\<close>



end
